theory Spec2Isabelle
  imports Main
begin

section \<open>Errors\<close>

text \<open>
  Go's \<^verbatim>\<open>error\<close> values as a datatype; a nil error is \<open>None\<close> of \<open>error option\<close>.
  \<open>ErrEmptyKey\<close> is \<^verbatim>\<open>util.ErrEmptyKey\<close>, \<open>ErrTooManyValues\<close> is
  \<^verbatim>\<open>sqlc.ErrTooManyValues\<close>, \<open>Wrapped k e\<close> is
  \<^verbatim>\<open>fmt.Errorf("key:%s, error:%w", k, e)\<close>, and \<open>Multi a b\<close> is what
  \<^verbatim>\<open>multierr.Append(a, b)\<close> gives for two non-nil errors. \<open>TemplateError\<close>,
  \<open>DriverError\<close> and \<open>CodecError\<close> stand for failures of the libraries the client
  calls: \<^verbatim>\<open>text/template\<close>, \<^verbatim>\<open>database/sql\<close> and the codec.
  \<open>NilFuncPanic\<close> marks the call of a nil generator hook, a place that \<open>Get\<close> never
  reaches.
\<close>

datatype error =
    ErrEmptyKey
  | ErrTooManyValues
  | Wrapped string error
  | TemplateError string
  | DriverError string
  | CodecError string
  | NilFuncPanic
  | Multi error error

fun multierr_Append :: "error option \<Rightarrow> error option \<Rightarrow> error option" where
  "multierr_Append None r = r"
| "multierr_Append (Some l) None = Some l"
| "multierr_Append (Some l) (Some r) = Some (Multi l r)"

text \<open>\<^verbatim>\<open>errors.Is(e, target)\<close>: \<open>e\<close> is the target, wraps it, or combines an error that does.\<close>

fun errors_Is :: "error \<Rightarrow> error \<Rightarrow> bool" where
  "errors_Is (Wrapped k e) t = (Wrapped k e = t \<or> errors_Is e t)"
| "errors_Is (Multi a b) t = (Multi a b = t \<or> errors_Is a t \<or> errors_Is b t)"
| "errors_Is e t = (e = t)"

section \<open>package util\<close>

definition CheckKey :: "string \<Rightarrow> error option" where
  "CheckKey k = (if k = [] then Some ErrEmptyKey else None)"

definition CheckVal :: "'v \<Rightarrow> error option" where
  "CheckVal v = None"

definition CheckKeyAndValue :: "string \<Rightarrow> 'v \<Rightarrow> error option" where
  "CheckKeyAndValue k v = (case CheckKey k of Some err \<Rightarrow> Some err | None \<Rightarrow> CheckVal v)"

section \<open>package gokv: options (string-valued store)\<close>

type_synonym time = nat

record Option =
  Expired :: time

type_synonym OptionFn = "Option \<Rightarrow> Option"

text \<open>\<^verbatim>\<open>OptionFns.Apply\<close>: the mutators run in order on the option passed in.\<close>

fun OptionFns_Apply :: "OptionFn list \<Rightarrow> Option \<Rightarrow> Option" where
  "OptionFns_Apply [] option = option"
| "OptionFns_Apply (f # fs) option = OptionFns_Apply fs (f option)"


definition Apply :: "Option \<Rightarrow> OptionFn" where
  "Apply v = (\<lambda>opt. v)"

definition zero_Option :: Option where
  "zero_Option = \<lparr>Expired = 0\<rparr>"

type_synonym GeneratorFn = "string \<Rightarrow> string \<times> Option \<times> error option"

section \<open>The client's surroundings\<close>

text \<open>
  The codec, the template engine, the SQL driver and the wall clock are not part of the
  repository. They are parameters of the model. \<open>'w\<close> is the state of everything outside
  the client process (the database server and the clock); a driver call may change it.

  A result row is what \<^verbatim>\<open>rows.Scan\<close> gives for it: an error, or the strings of its
  columns, the first column apart (a result set has at least one column). A NULL column
  scanned into \<^verbatim>\<open>sql.NullString\<close> has the string \<open>''''\<close>.
\<close>

record Codec =
  Marshal :: "Option \<Rightarrow> error + string"
  Unmarshal :: "string \<Rightarrow> Option \<Rightarrow> error option \<times> Option"

type_synonym row = "error + string \<times> string list"

text \<open>An \<^verbatim>\<open>sql.Result\<close> is what its \<^verbatim>\<open>RowsAffected()\<close> returns.\<close>

type_synonym sql_Result = "error + int"

record 'w Env =
  tmpl_Parse :: "string \<Rightarrow> error option"
  tmpl_Execute :: "string \<Rightarrow> (string \<times> string) list \<Rightarrow> error + string"
  time_Now :: "'w \<Rightarrow> time"
  time_Format :: "time \<Rightarrow> string"
  sql_Open :: "string \<Rightarrow> string \<Rightarrow> error option"
  ExecContext :: "string \<Rightarrow> 'w \<Rightarrow> (error + sql_Result) \<times> 'w"
  QueryContext :: "string \<Rightarrow> 'w \<Rightarrow> (error + row list) \<times> 'w"
  db_Close :: "'w \<Rightarrow> error option \<times> 'w"

section \<open>package sqlc: the caching client\<close>

record Config =
  DriverName :: string
  DataSourceName :: string
  KeysSQL :: string
  GetSQL :: string
  SetSQL :: string
  DeleteSQL :: string
  Codec :: Codec
  RefreshInterval :: nat

record CacheValue =
  Value :: string
  Option :: Option
  UpdateTime :: time

text \<open>
  The mutable part of a client and of its surroundings. \<open>Conn\<close> is what every variant of
  the client has: the outside world and the list of driver calls made so far with their
  results (a history variable; the code does not read it). \<open>Client\<close> adds the cache.
\<close>

datatype db_call =
    CallOpen
  | CallExec string "error + sql_Result"
  | CallQuery string "error + row list"
  | CallClose "error option"

record 'w Conn =
  world :: 'w
  calls :: "db_call list"

record 'w Client = "'w Conn" +
  Cache :: "string \<rightharpoonup> CacheValue"

definition do_Open :: "'w Env \<Rightarrow> string \<Rightarrow> string \<Rightarrow> ('w, 'z) Conn_scheme
    \<Rightarrow> error option \<times> ('w, 'z) Conn_scheme" where
  "do_Open e driver dsn s = (sql_Open e driver dsn, s\<lparr>calls := calls s @ [CallOpen]\<rparr>)"

definition do_Exec :: "'w Env \<Rightarrow> string \<Rightarrow> ('w, 'z) Conn_scheme
    \<Rightarrow> (error + sql_Result) \<times> ('w, 'z) Conn_scheme" where
  "do_Exec e query s =
     (case ExecContext e query (world s) of
        (r, w) \<Rightarrow> (r, s\<lparr>world := w, calls := calls s @ [CallExec query r]\<rparr>))"

definition do_Query :: "'w Env \<Rightarrow> string \<Rightarrow> ('w, 'z) Conn_scheme
    \<Rightarrow> (error + row list) \<times> ('w, 'z) Conn_scheme" where
  "do_Query e query s =
     (case QueryContext e query (world s) of
        (r, w) \<Rightarrow> (r, s\<lparr>world := w, calls := calls s @ [CallQuery query r]\<rparr>))"

definition do_Close :: "'w Env \<Rightarrow> ('w, 'z) Conn_scheme \<Rightarrow> error option \<times> ('w, 'z) Conn_scheme" where
  "do_Close e s =
     (case db_Close e (world s) of
        (cerr, w) \<Rightarrow> (cerr, s\<lparr>world := w, calls := calls s @ [CallClose cerr]\<rparr>))"

text \<open>
  The deferred \<^verbatim>\<open>er = multierr.Append(er, db.Close())\<close>: it runs on every return
  after \<^verbatim>\<open>sql.Open\<close> succeeded and rewrites the named error result.
\<close>

definition deferred_Close :: "'w Env \<Rightarrow> error option \<Rightarrow> ('w, 'z) Conn_scheme
    \<Rightarrow> error option \<times> ('w, 'z) Conn_scheme" where
  "deferred_Close e er s = (case do_Close e s of (cerr, s') \<Rightarrow> (multierr_Append er cerr, s'))"

subsection \<open>Set\<close>

definition Set :: "'w Env \<Rightarrow> Config \<Rightarrow> string \<Rightarrow> string \<Rightarrow> OptionFn list \<Rightarrow> 'w Client
    \<Rightarrow> error option \<times> 'w Client" where
  "Set e c k v fns s =
     (case CheckKeyAndValue k v of Some err \<Rightarrow> (Some err, s) | None \<Rightarrow>
      let option = OptionFns_Apply fns zero_Option in
      case Marshal (Codec c) option of Inl err \<Rightarrow> (Some err, s) | Inr optionData \<Rightarrow>
      case tmpl_Parse e (SetSQL c) of Some err \<Rightarrow> (Some err, s) | None \<Rightarrow>
      case tmpl_Execute e (SetSQL c)
             [(''Key'', k), (''Value'', v), (''Option'', optionData),
              (''Time'', time_Format e (time_Now e (world s)))] of
        Inl err \<Rightarrow> (Some err, s)
      | Inr query \<Rightarrow>
      case do_Open e (DriverName c) (DataSourceName c) s of
        (Some err, s1) \<Rightarrow> (Some err, s1)
      | (None, s1) \<Rightarrow>
      case do_Exec e query s1 of
        (Inl err, s2) \<Rightarrow> deferred_Close e (Some err) s2
      | (Inr _, s2) \<Rightarrow>
          deferred_Close e None
            (s2\<lparr>Cache := (Cache s2)(k \<mapsto>
                   \<lparr>Value = v, Option = option, UpdateTime = time_Now e (world s2)\<rparr>)\<rparr>))"

subsection \<open>Get\<close>

text \<open>
  The loop over \<^verbatim>\<open>rows.Next()\<close>. \<open>row\<close> counts the rows read so far, \<open>v\<close> and
  \<open>option\<close> are what has been decoded. \<open>Inl\<close> is an early return from inside the loop,
  with the error and the option returned beside it.
\<close>

fun Get_rows :: "Codec \<Rightarrow> string \<Rightarrow> row list \<Rightarrow> nat \<Rightarrow> string \<Rightarrow> Option
    \<Rightarrow> error \<times> Option + nat \<times> string \<times> Option" where
  "Get_rows cd k [] row v option = Inr (row, v, option)"
| "Get_rows cd k (r # rs) row v option =
     (if row \<ge> 1 then Inl (Wrapped k ErrTooManyValues, option)
      else case r of
        Inl err \<Rightarrow> Inl (err, option)
      | Inr (col0, others) \<Rightarrow>
          let v' = (if col0 \<noteq> [] then col0 else v) in
          (case others of
             [] \<Rightarrow> Get_rows cd k rs (row + 1) v' option
           | col1 # _ \<Rightarrow>
               if col1 \<noteq> [] then
                 (case Unmarshal cd col1 option of
                    (Some err, option') \<Rightarrow> Inl (err, option')
                  | (None, option') \<Rightarrow> Get_rows cd k rs (row + 1) v' option')
               else Get_rows cd k rs (row + 1) v' option))"

definition Get_return :: "'w Env \<Rightarrow> bool \<Rightarrow> string \<Rightarrow> Option \<Rightarrow> error option \<Rightarrow> 'w Client
    \<Rightarrow> (bool \<times> string \<times> Option \<times> error option) \<times> 'w Client" where
  "Get_return e found v option er s =
     (case deferred_Close e er s of (er', s') \<Rightarrow> ((found, v, option, er'), s'))"

text \<open>
  \<open>fn\<close> is the generator hook, \<open>None\<close> for a nil function. After the loop \<open>row\<close> is 0 or
  1, so the hook is only reached with \<open>row = 0\<close> and a hook present; the branch for a nil
  hook there (a call of a nil function in Go) is never taken, see \<open>Get_rows_le_1\<close>.
\<close>

definition Get :: "'w Env \<Rightarrow> Config \<Rightarrow> string \<Rightarrow> GeneratorFn option \<Rightarrow> 'w Client
    \<Rightarrow> (bool \<times> string \<times> Option \<times> error option) \<times> 'w Client" where
  "Get e c k fn s =
     (case CheckKeyAndValue k ([] :: string) of
        Some err \<Rightarrow> ((False, [], zero_Option, Some err), s)
      | None \<Rightarrow>
      case Cache s k of
        Some cv \<Rightarrow> ((True, Value cv, Option cv, None), s)
      | None \<Rightarrow>
      case tmpl_Parse e (GetSQL c) of
        Some err \<Rightarrow> ((False, [], zero_Option, Some err), s)
      | None \<Rightarrow>
      case tmpl_Execute e (GetSQL c) [(''Key'', k)] of
        Inl err \<Rightarrow> ((False, [], zero_Option, Some err), s)
      | Inr query \<Rightarrow>
      case do_Open e (DriverName c) (DataSourceName c) s of
        (Some err, s1) \<Rightarrow> ((False, [], zero_Option, Some err), s1)
      | (None, s1) \<Rightarrow>
      case do_Query e query s1 of
        (Inl err, s2) \<Rightarrow> Get_return e False [] zero_Option (Some err) s2
      | (Inr rows, s2) \<Rightarrow>
      case Get_rows (Codec c) k rows 0 [] zero_Option of
        Inl (err, option) \<Rightarrow> Get_return e False [] option (Some err) s2
      | Inr (row, v, option) \<Rightarrow>
          if row = 0 \<and> fn = None then Get_return e False v option None s2
          else if row = 1 then
            Get_return e True v option None
              (s2\<lparr>Cache := (Cache s2)(k \<mapsto>
                     \<lparr>Value = v, Option = option, UpdateTime = time_Now e (world s2)\<rparr>)\<rparr>)
          else
            (case fn of
               None \<Rightarrow> Get_return e False [] option (Some NilFuncPanic) s2
             | Some f \<Rightarrow>
                 (case f k of
                    (v', newOption, Some err) \<Rightarrow> Get_return e False [] option (Some err) s2
                  | (v', newOption, None) \<Rightarrow>
                      (case Set e c k v' [Apply newOption] s2 of
                         (Some err, s3) \<Rightarrow> Get_return e False [] option (Some err) s3
                       | (None, s3) \<Rightarrow> Get_return e True v' newOption None s3))))"

subsection \<open>Del\<close>

definition Del :: "'w Env \<Rightarrow> Config \<Rightarrow> string \<Rightarrow> 'w Client \<Rightarrow> (bool \<times> error option) \<times> 'w Client" where
  "Del e c k s =
     (case CheckKey k of Some err \<Rightarrow> ((False, Some err), s) | None \<Rightarrow>
      case tmpl_Parse e (DeleteSQL c) of Some err \<Rightarrow> ((False, Some err), s) | None \<Rightarrow>
      case tmpl_Execute e (DeleteSQL c)
             [(''Key'', k), (''Time'', time_Format e (time_Now e (world s)))] of
        Inl err \<Rightarrow> ((False, Some err), s)
      | Inr query \<Rightarrow>
      case do_Open e (DriverName c) (DataSourceName c) s of
        (Some err, s1) \<Rightarrow> ((False, Some err), s1)
      | (None, s1) \<Rightarrow>
      case do_Exec e query s1 of
        (Inl err, s2) \<Rightarrow>
          (case deferred_Close e (Some err) s2 of (er, s3) \<Rightarrow> ((False, er), s3))
      | (Inr _, s2) \<Rightarrow>
          (case deferred_Close e None (s2\<lparr>Cache := (Cache s2)(k := None)\<rparr>) of
             (er, s3) \<Rightarrow> ((True, er), s3)))"

subsection \<open>Keys\<close>

fun Keys_rows :: "row list \<Rightarrow> string list \<Rightarrow> error + string list" where
  "Keys_rows [] results = Inr results"
| "Keys_rows (r # rs) results =
     (case r of
        Inl err \<Rightarrow> Inl err
      | Inr (col0, others) \<Rightarrow> Keys_rows rs (results @ [col0]))"

definition Keys :: "'w Env \<Rightarrow> Config \<Rightarrow> 'w Client \<Rightarrow> (string list \<times> error option) \<times> 'w Client" where
  "Keys e c s =
     (case tmpl_Parse e (KeysSQL c) of Some err \<Rightarrow> (([], Some err), s) | None \<Rightarrow>
      case tmpl_Execute e (KeysSQL c) [] of
        Inl err \<Rightarrow> (([], Some err), s)
      | Inr query \<Rightarrow>
      case do_Open e (DriverName c) (DataSourceName c) s of
        (Some err, s1) \<Rightarrow> (([], Some err), s1)
      | (None, s1) \<Rightarrow>
      case do_Query e query s1 of
        (Inl err, s2) \<Rightarrow>
          (case deferred_Close e (Some err) s2 of (er, s3) \<Rightarrow> (([], er), s3))
      | (Inr rows, s2) \<Rightarrow>
          (case Keys_rows rows [] of
             Inl err \<Rightarrow> (case deferred_Close e (Some err) s2 of (er, s3) \<Rightarrow> (([], er), s3))
           | Inr results \<Rightarrow>
               (case deferred_Close e None s2 of (er, s3) \<Rightarrow> ((results, er), s3))))"

subsection \<open>Refresh\<close>

text \<open>
  The first loop ranges over the cache. Go leaves the order of a map range open, so the
  order is the argument \<open>order\<close>: a duplicate-free list of the keys of the cache
  (\<open>range_of\<close>). \<open>keys\<close> is the list that \<^verbatim>\<open>Keys\<close> returned; \<^verbatim>\<open>keysMap[k]\<close> is
  \<open>k \<in> set keys\<close>.
\<close>

definition range_of :: "(string \<rightharpoonup> CacheValue) \<Rightarrow> string list \<Rightarrow> bool" where
  "range_of m order = (distinct order \<and> set order = dom m)"

fun Refresh_sweep :: "string list \<Rightarrow> string list \<Rightarrow> string list \<Rightarrow> 'w Client
    \<Rightarrow> string list \<times> 'w Client" where
  "Refresh_sweep keys [] cacheKeys s = (cacheKeys, s)"
| "Refresh_sweep keys (k # ks) cacheKeys s =
     (if k \<notin> set keys then Refresh_sweep keys ks cacheKeys (s\<lparr>Cache := (Cache s)(k := None)\<rparr>)
      else Refresh_sweep keys ks (cacheKeys @ [k]) s)"

fun Refresh_refetch :: "'w Env \<Rightarrow> Config \<Rightarrow> string list \<Rightarrow> 'w Client \<Rightarrow> error option \<times> 'w Client" where
  "Refresh_refetch e c [] s = (None, s)"
| "Refresh_refetch e c (k # ks) s =
     (case Get e c k None (s\<lparr>Cache := (Cache s)(k := None)\<rparr>) of
        ((found, v, option, Some err), s') \<Rightarrow> (Some err, s')
      | ((found, v, option, None), s') \<Rightarrow> Refresh_refetch e c ks s')"

definition Refresh :: "'w Env \<Rightarrow> Config \<Rightarrow> string list \<Rightarrow> 'w Client \<Rightarrow> error option \<times> 'w Client" where
  "Refresh e c order s =
     (case Keys e c s of
        ((keys, Some err), s1) \<Rightarrow> (Some err, s1)
      | ((keys, None), s1) \<Rightarrow>
          (case Refresh_sweep keys order [] s1 of
             (cacheKeys, s2) \<Rightarrow> Refresh_refetch e c cacheKeys s2))"

section \<open>package sqlc: the client for values of any type, without a cache\<close>

text \<open>
  The other client of the repository stores values of any type through the codec and keeps
  no cache; its option carries a creation time. Its names have the suffix \<open>_g\<close>. The
  codec of Go takes any value; here it has one pair of functions for the values and one
  for the options. This client closes its connection with a plain
  \<^verbatim>\<open>defer db.Close()\<close>, which drops the error of the release.
\<close>

record Option_g =
  Expired_g :: nat
  CreateTime :: string

type_synonym OptionFn_g = "Option_g \<Rightarrow> Option_g"

fun OptionFns_Apply_g :: "OptionFn_g list \<Rightarrow> Option_g \<Rightarrow> Option_g" where
  "OptionFns_Apply_g [] option = option"
| "OptionFns_Apply_g (f # fs) option = OptionFns_Apply_g fs (f option)"


definition Apply_g :: "Option_g \<Rightarrow> OptionFn_g" where
  "Apply_g v = (\<lambda>opt. v)"

definition zero_Option_g :: Option_g where
  "zero_Option_g = \<lparr>Expired_g = 0, CreateTime = []\<rparr>"

type_synonym 'v GeneratorFn_g = "string \<Rightarrow> 'v \<Rightarrow> 'v \<times> Option_g \<times> error option"

record 'v Codec_g =
  Marshal_g :: "'v \<Rightarrow> error + string"
  Unmarshal_g :: "string \<Rightarrow> 'v \<Rightarrow> error option \<times> 'v"
  MarshalOption_g :: "Option_g \<Rightarrow> error + string"
  UnmarshalOption_g :: "string \<Rightarrow> Option_g \<Rightarrow> error option \<times> Option_g"

record 'v Config_g =
  DriverName_g :: string
  DataSourceName_g :: string
  KeysSQL_g :: string
  GetSQL_g :: string
  SetSQL_g :: string
  DeleteSQL_g :: string
  Codec_g :: "'v Codec_g"

text \<open>
  The option that \<^verbatim>\<open>Set\<close> marshals: the mutators applied to a zero option, then
  \<^verbatim>\<open>option.CreateTime = time.Now().Format(...)\<close>.
\<close>

definition Set_option_g :: "'w Env \<Rightarrow> OptionFn_g list \<Rightarrow> 'w \<Rightarrow> Option_g" where
  "Set_option_g e fns w =
     (OptionFns_Apply_g fns zero_Option_g)\<lparr>CreateTime := time_Format e (time_Now e w)\<rparr>"

definition Set_g :: "'w Env \<Rightarrow> 'v Config_g \<Rightarrow> string \<Rightarrow> 'v \<Rightarrow> OptionFn_g list \<Rightarrow> 'w Conn
    \<Rightarrow> error option \<times> 'w Conn" where
  "Set_g e c k v fns s =
     (case CheckKeyAndValue k v of Some err \<Rightarrow> (Some err, s) | None \<Rightarrow>
      case Marshal_g (Codec_g c) v of Inl err \<Rightarrow> (Some err, s) | Inr data \<Rightarrow>
      let option = Set_option_g e fns (world s) in
      case MarshalOption_g (Codec_g c) option of Inl err \<Rightarrow> (Some err, s) | Inr optionData \<Rightarrow>
      case tmpl_Parse e (SetSQL_g c) of Some err \<Rightarrow> (Some err, s) | None \<Rightarrow>
      case tmpl_Execute e (SetSQL_g c)
             [(''Key'', k), (''Value'', data), (''Option'', optionData),
              (''Time'', time_Format e (time_Now e (world s)))] of
        Inl err \<Rightarrow> (Some err, s)
      | Inr query \<Rightarrow>
      case do_Open e (DriverName_g c) (DataSourceName_g c) s of
        (Some err, s1) \<Rightarrow> (Some err, s1)
      | (None, s1) \<Rightarrow>
      case do_Exec e query s1 of
        (r, s2) \<Rightarrow>
          (case do_Close e s2 of
             (cerr, s3) \<Rightarrow> ((case r of Inl err \<Rightarrow> Some err | Inr result \<Rightarrow> None), s3)))"

fun Get_rows_g :: "'v Codec_g \<Rightarrow> string \<Rightarrow> row list \<Rightarrow> nat \<Rightarrow> 'v \<Rightarrow> Option_g
    \<Rightarrow> error \<times> 'v \<times> Option_g + nat \<times> 'v \<times> Option_g" where
  "Get_rows_g cd k [] row v option = Inr (row, v, option)"
| "Get_rows_g cd k (r # rs) row v option =
     (if row \<ge> 1 then Inl (Wrapped k ErrTooManyValues, v, option)
      else case r of
        Inl err \<Rightarrow> Inl (err, v, option)
      | Inr (col0, others) \<Rightarrow>
          (case (if col0 \<noteq> [] then Unmarshal_g cd col0 v else (None, v)) of
             (Some err, v') \<Rightarrow> Inl (err, v', option)
           | (None, v') \<Rightarrow>
               (case others of
                  [] \<Rightarrow> Get_rows_g cd k rs (row + 1) v' option
                | col1 # _ \<Rightarrow>
                    if col1 \<noteq> [] then
                      (case UnmarshalOption_g cd col1 option of
                         (Some err, option') \<Rightarrow> Inl (err, v', option')
                       | (None, option') \<Rightarrow> Get_rows_g cd k rs (row + 1) v' option')
                    else Get_rows_g cd k rs (row + 1) v' option)))"

text \<open>
  \<open>v\<close> is the value behind the pointer the caller passes; the result carries what it holds
  on return. The hook's branch calls \<^verbatim>\<open>c.Set(k, v, gokv.Apply(newOption))\<close> and does
  not look at what it returns.
\<close>

definition Get_g :: "'w Env \<Rightarrow> 'v Config_g \<Rightarrow> string \<Rightarrow> 'v \<Rightarrow> 'v GeneratorFn_g option \<Rightarrow> 'w Conn
    \<Rightarrow> (bool \<times> 'v \<times> Option_g \<times> error option) \<times> 'w Conn" where
  "Get_g e c k v fn s =
     (case CheckKeyAndValue k v of
        Some err \<Rightarrow> ((False, v, zero_Option_g, Some err), s)
      | None \<Rightarrow>
      case tmpl_Parse e (GetSQL_g c) of
        Some err \<Rightarrow> ((False, v, zero_Option_g, Some err), s)
      | None \<Rightarrow>
      case tmpl_Execute e (GetSQL_g c) [(''Key'', k)] of
        Inl err \<Rightarrow> ((False, v, zero_Option_g, Some err), s)
      | Inr query \<Rightarrow>
      case do_Open e (DriverName_g c) (DataSourceName_g c) s of
        (Some err, s1) \<Rightarrow> ((False, v, zero_Option_g, Some err), s1)
      | (None, s1) \<Rightarrow>
      case do_Query e query s1 of
        (Inl err, s2) \<Rightarrow> ((False, v, zero_Option_g, Some err), snd (do_Close e s2))
      | (Inr rows, s2) \<Rightarrow>
      case Get_rows_g (Codec_g c) k rows 0 v zero_Option_g of
        Inl (err, v1, option) \<Rightarrow> ((False, v1, option, Some err), snd (do_Close e s2))
      | Inr (row, v1, option) \<Rightarrow>
          if row = 0 \<and> fn = None then ((False, v1, option, None), snd (do_Close e s2))
          else if row = 1 then ((True, v1, option, None), snd (do_Close e s2))
          else
            (case fn of
               None \<Rightarrow> ((False, v1, option, Some NilFuncPanic), snd (do_Close e s2))
             | Some f \<Rightarrow>
                 (case f k v1 of
                    (v2, newOption, Some err) \<Rightarrow>
                      ((False, v2, option, Some err), snd (do_Close e s2))
                  | (v2, newOption, None) \<Rightarrow>
                      (case Set_g e c k v2 [Apply_g newOption] s2 of
                         (serr, s3) \<Rightarrow> ((True, v2, newOption, None), snd (do_Close e s3))))))"

definition Del_g :: "'w Env \<Rightarrow> 'v Config_g \<Rightarrow> string \<Rightarrow> 'w Conn \<Rightarrow> (bool \<times> error option) \<times> 'w Conn" where
  "Del_g e c k s =
     (case CheckKey k of Some err \<Rightarrow> ((False, Some err), s) | None \<Rightarrow>
      case tmpl_Parse e (DeleteSQL_g c) of Some err \<Rightarrow> ((False, Some err), s) | None \<Rightarrow>
      case tmpl_Execute e (DeleteSQL_g c) [(''Key'', k)] of
        Inl err \<Rightarrow> ((False, Some err), s)
      | Inr query \<Rightarrow>
      case do_Open e (DriverName_g c) (DataSourceName_g c) s of
        (Some err, s1) \<Rightarrow> ((False, Some err), s1)
      | (None, s1) \<Rightarrow>
      case do_Exec e query s1 of
        (Inl err, s2) \<Rightarrow> ((False, Some err), snd (do_Close e s2))
      | (Inr result, s2) \<Rightarrow>
          (case result of
             Inl err \<Rightarrow> ((False, Some err), snd (do_Close e s2))
           | Inr rowsAffected \<Rightarrow> ((rowsAffected > 0, None), snd (do_Close e s2))))"

section \<open>A small environment to run the clients in\<close>

text \<open>
  The world is a counter that every driver call advances and that the clock reads. The
  results of queries, statements and releases are given by three functions of the query
  text and the world. The template engine writes the template, then the key, then the
  marshalled option. The codec writes an expiry \<open>n\<close> as \<open>n\<close> letters \<open>x\<close> and rejects
  any other text.
\<close>

definition demo_Codec :: Codec where
  "demo_Codec =
     \<lparr>Marshal = (\<lambda>opt. Inr (replicate (Expired opt) CHR ''x'')),
      Unmarshal = (\<lambda>data opt.
        if list_all (\<lambda>ch. ch = CHR ''x'') data then (None, opt\<lparr>Expired := length data\<rparr>)
        else (Some (CodecError data), opt))\<rparr>"

definition demo_Config :: Config where
  "demo_Config =
     \<lparr>DriverName = ''mysql'', DataSourceName = ''dsn'',
      KeysSQL = ''keys'', GetSQL = ''get '', SetSQL = ''set '', DeleteSQL = ''del '',
      Codec = demo_Codec, RefreshInterval = 0\<rparr>"

definition demo_Env :: "(string \<Rightarrow> nat \<Rightarrow> error + row list) \<Rightarrow> (string \<Rightarrow> nat \<Rightarrow> error + sql_Result)
    \<Rightarrow> (nat \<Rightarrow> error option) \<Rightarrow> nat Env" where
  "demo_Env q x cl =
     \<lparr>tmpl_Parse = (\<lambda>t. None),
      tmpl_Execute = (\<lambda>t vars. Inr (t
         @ (case map_of vars ''Key'' of None \<Rightarrow> [] | Some k \<Rightarrow> k)
         @ (case map_of vars ''Option'' of None \<Rightarrow> [] | Some opt \<Rightarrow> opt))),
      time_Now = (\<lambda>w. w),
      time_Format = (\<lambda>t. CHR ''T'' # replicate t CHR ''I''),
      sql_Open = (\<lambda>driver dsn. None),
      ExecContext = (\<lambda>query w. (x query w, Suc w)),
      QueryContext = (\<lambda>query w. (q query w, Suc w)),
      db_Close = (\<lambda>w. (cl w, Suc w))\<rparr>"

text \<open>\<^verbatim>\<open>NewClient\<close> at world \<open>0\<close>: an empty cache, no call made.\<close>

definition new_Client :: "nat Client" where
  "new_Client = \<lparr>world = 0, calls = [], Cache = Map.empty\<rparr>"




text \<open>
  The stores of the examples. \<open>env_ok\<close>: no row for any key, every statement changes one
  row, every release succeeds. \<open>env_close_fails\<close>: the same with every release failing.
  \<open>env_delete\<close>: the first statement changes one row, the later ones none.
  \<open>env_two_rows\<close> and \<open>env_two_rows_bad_option\<close>: every query returns two rows; in the
  second the first row's metadata column does not decode. \<open>env_hook\<close>: as \<open>env_ok\<close>, but
  the release at world \<open>3\<close> fails. \<open>env_refresh\<close>: the live keys are \<open>A\<close> and \<open>C\<close>, and
  \<open>A\<close> has the value \<open>a2\<close>. \<open>env_refresh_fails\<close>: the live keys are \<open>A\<close> and \<open>B\<close>, and
  reading \<open>A\<close> fails.
\<close>

definition env_ok :: "nat Env" where
  "env_ok = demo_Env (\<lambda>q w. Inr []) (\<lambda>q w. Inr (Inr 1)) (\<lambda>w. None)"

definition env_close_fails :: "nat Env" where
  "env_close_fails =
     demo_Env (\<lambda>q w. Inr []) (\<lambda>q w. Inr (Inr 1)) (\<lambda>w. Some (DriverError ''close''))"

definition env_delete :: "nat Env" where
  "env_delete =
     demo_Env (\<lambda>q w. Inr []) (\<lambda>q w. Inr (Inr (if w = 0 then 1 else 0))) (\<lambda>w. None)"

definition env_two_rows :: "nat Env" where
  "env_two_rows =
     demo_Env (\<lambda>q w. Inr [Inr (''v1'', []), Inr (''v2'', [])]) (\<lambda>q w. Inr (Inr 1)) (\<lambda>w. None)"

definition env_two_rows_bad_option :: "nat Env" where
  "env_two_rows_bad_option =
     demo_Env (\<lambda>q w. Inr [Inr (''v1'', [''bad'']), Inr (''v2'', [[]])])
       (\<lambda>q w. Inr (Inr 1)) (\<lambda>w. None)"

definition env_hook :: "nat Env" where
  "env_hook =
     demo_Env (\<lambda>q w. Inr []) (\<lambda>q w. Inr (Inr 1))
       (\<lambda>w. if w = 3 then Some (DriverError ''close'') else None)"

definition demo_hook :: GeneratorFn where
  "demo_hook = (\<lambda>k. (''gen'', \<lparr>Expired = 7\<rparr>, None))"

definition env_refresh :: "nat Env" where
  "env_refresh =
     demo_Env
       (\<lambda>q w. if q = ''keys'' then Inr [Inr (''A'', []), Inr (''C'', [])]
              else if q = ''get A'' then Inr [Inr (''a2'', [])]
              else Inr [])
       (\<lambda>q w. Inr (Inr 1)) (\<lambda>w. None)"

definition env_refresh_fails :: "nat Env" where
  "env_refresh_fails =
     demo_Env
       (\<lambda>q w. if q = ''keys'' then Inr [Inr (''A'', []), Inr (''B'', [])]
              else if q = ''get A'' then Inl (DriverError ''read'')
              else Inr [Inr (''b2'', [])])
       (\<lambda>q w. Inr (Inr 1)) (\<lambda>w. None)"

definition cached_k :: "nat Client" where
  "cached_k =
     \<lparr>world = 5, calls = [],
      Cache = [''k'' \<mapsto> \<lparr>Value = ''old'', Option = zero_Option, UpdateTime = 3\<rparr>]\<rparr>"

definition cached_AB :: "nat Client" where
  "cached_AB =
     \<lparr>world = 5, calls = [],
      Cache = [''A'' \<mapsto> \<lparr>Value = ''a1'', Option = zero_Option, UpdateTime = 1\<rparr>,
               ''B'' \<mapsto> \<lparr>Value = ''b1'', Option = zero_Option, UpdateTime = 2\<rparr>]\<rparr>"

section \<open>Predicates of the statements\<close>

text \<open>
  \<open>row_decodes cd r\<close>: the loop of \<open>Get\<close> gets through \<open>r\<close> as its first row: the scan
  succeeded and the metadata column is absent, empty or accepted by the codec.
\<close>

definition row_decodes :: "Codec \<Rightarrow> row \<Rightarrow> bool" where
  "row_decodes cd r =
     (case r of
        Inl err \<Rightarrow> False
      | Inr (col0, others) \<Rightarrow>
          (case others of
             [] \<Rightarrow> True
           | col1 # _ \<Rightarrow> col1 = [] \<or> fst (Unmarshal cd col1 zero_Option) = None))"

text \<open>The clock does not run backwards over a driver call.\<close>

definition clock_monotone :: "'w Env \<Rightarrow> bool" where
  "clock_monotone e =
     (\<forall>query w. time_Now e w \<le> time_Now e (snd (ExecContext e query w))
        \<and> time_Now e w \<le> time_Now e (snd (QueryContext e query w))
        \<and> time_Now e w \<le> time_Now e (snd (db_Close e w)))"

text \<open>No cache entry is stamped later than the present.\<close>

definition cache_times_ok :: "'w Env \<Rightarrow> 'w Client \<Rightarrow> bool" where
  "cache_times_ok e s =
     (\<forall>k cv. Cache s k = Some cv \<longrightarrow> UpdateTime cv \<le> time_Now e (world s))"


section \<open>Basic facts\<close>

lemmas demo_defs = demo_Codec_def demo_Config_def demo_Env_def new_Client_def
lemmas env_defs = env_ok_def env_close_fails_def env_delete_def env_two_rows_def
  env_two_rows_bad_option_def env_hook_def demo_hook_def env_refresh_def env_refresh_fails_def
  cached_k_def cached_AB_def
lemmas conn_defs = do_Open_def do_Exec_def do_Query_def do_Close_def deferred_Close_def
lemmas check_defs = CheckKeyAndValue_def CheckKey_def CheckVal_def

lemma multierr_Append_None_iff: "multierr_Append a b = None \<longleftrightarrow> a = None \<and> b = None"
  by (cases a; cases b) auto

lemma Set_None_cache:
  assumes "Set e c k v fns s = (None, s')"
  shows "\<exists>t. Cache s' k
    = Some \<lparr>Value = v, Option = OptionFns_Apply fns zero_Option, UpdateTime = t\<rparr>"
  using assms
  by (auto simp: Set_def Let_def conn_defs multierr_Append_None_iff
      split: option.splits sum.splits prod.splits)

text \<open>What the loop of \<open>Get\<close> returns when it runs to its end: no row, or one row.\<close>

lemma Get_rows_Inr:
  assumes "Get_rows cd k rows 0 [] zero_Option = Inr (row, v, option)"
  shows "(row = 0 \<and> rows = [])
    \<or> (row = 1 \<and> (\<exists>col0 others. rows = [Inr (col0, others)] \<and> v = col0))"
proof (cases rows)
  case Nil
  with assms show ?thesis by simp
next
  case (Cons r rs)
  show ?thesis
  proof (cases rs)
    case Nil
    with Cons assms show ?thesis
      by (auto split: sum.splits prod.splits list.splits if_splits option.splits)
  next
    case (Cons r2 rs2)
    with \<open>rows = r # rs\<close> assms show ?thesis
      by (auto split: sum.splits prod.splits list.splits if_splits option.splits)
  qed
qed

lemma Get_rows_le_1:
  "Get_rows cd k rows 0 [] zero_Option = Inr (row, v, option) \<Longrightarrow> row \<le> 1"
  using Get_rows_Inr by fastforce

section \<open>Set followed by Get\<close>

text \<open>
  C1. For a non-empty key \<open>k\<close> and a value \<open>v\<close>: when \<open>Set k v\<close> returns a nil error, the
  \<open>Get k\<close> that follows returns found, the value \<open>v\<close>, the option that \<open>Set\<close> built and a
  nil error. The state after \<open>Get\<close> is the state before it: the cache answered, the world
  is untouched and no driver call was added to the history.
\<close>

theorem Set_then_Get_cache_hit:
  assumes "k \<noteq> []" and "Set e c k v fns s = (None, s')"
  shows "Get e c k fn s' = ((True, v, OptionFns_Apply fns zero_Option, None), s')"
proof -
  obtain t where "Cache s' k
      = Some \<lparr>Value = v, Option = OptionFns_Apply fns zero_Option, UpdateTime = t\<rparr>"
    using Set_None_cache[OF assms(2)] by blast
  then show ?thesis using assms(1)
    by (simp add: Get_def check_defs)
qed

theorem Set_then_Get_cache_hit_witness:
  "''k'' \<noteq> [] \<and>
   Set env_ok demo_Config ''k'' ''v'' [] new_Client
     = (None, \<lparr>world = 2, calls = [CallOpen, CallExec ''set k'' (Inr (Inr 1)), CallClose None],
          Cache = [''k'' \<mapsto> \<lparr>Value = ''v'', Option = zero_Option, UpdateTime = 1\<rparr>]\<rparr>) \<and>
   Get env_ok demo_Config ''k'' None
       \<lparr>world = 2, calls = [CallOpen, CallExec ''set k'' (Inr (Inr 1)), CallClose None],
          Cache = [''k'' \<mapsto> \<lparr>Value = ''v'', Option = zero_Option, UpdateTime = 1\<rparr>]\<rparr>
     = ((True, ''v'', zero_Option, None),
        \<lparr>world = 2, calls = [CallOpen, CallExec ''set k'' (Inr (Inr 1)), CallClose None],
          Cache = [''k'' \<mapsto> \<lparr>Value = ''v'', Option = zero_Option, UpdateTime = 1\<rparr>]\<rparr>)"
proof -
  have n: "''k'' \<noteq> []" by simp
  have s: "Set env_ok demo_Config ''k'' ''v'' [] new_Client
     = (None, \<lparr>world = 2, calls = [CallOpen, CallExec ''set k'' (Inr (Inr 1)), CallClose None],
          Cache = [''k'' \<mapsto> \<lparr>Value = ''v'', Option = zero_Option, UpdateTime = 1\<rparr>]\<rparr>)"
    by (simp add: demo_defs env_defs Set_def conn_defs check_defs zero_Option_def)
  from Set_then_Get_cache_hit [OF n s, of None] n s show ?thesis by simp
qed

section \<open>The empty key\<close>

text \<open>
  C8. For the empty key, \<open>Get\<close>, \<open>Set\<close> and \<open>Del\<close> each return \<open>ErrEmptyKey\<close> and leave
  the state as it was: no driver call, no change of the cache.
\<close>

theorem empty_key_rejected:
  "Get e c [] fn s = ((False, [], zero_Option, Some ErrEmptyKey), s)
   \<and> Set e c [] v fns s = (Some ErrEmptyKey, s)
   \<and> Del e c [] s = ((False, Some ErrEmptyKey), s)"
  by (simp add: Get_def Set_def Del_def check_defs)

theorem empty_key_rejected_witness:
  "Get env_ok demo_Config [] None cached_k
     = ((False, [], zero_Option, Some ErrEmptyKey), cached_k)
   \<and> Set env_ok demo_Config [] ''v'' [] cached_k = (Some ErrEmptyKey, cached_k)
   \<and> Del env_ok demo_Config [] cached_k = ((False, Some ErrEmptyKey), cached_k)"
  by (rule empty_key_rejected)

section \<open>Set and the error of the release\<close>

text \<open>
  C10. A non-nil error from \<open>Set\<close> does not mean that the cache is unchanged. When the
  statement has executed, \<open>Set\<close> writes the cache entry of the key, and the deferred
  release then puts its error into the result: with a failing release, \<open>Set\<close> returns that
  error and the cache holds the new value.
\<close>

theorem Set_release_error_keeps_cache_write:
  assumes "k \<noteq> []"
    and "Marshal (Codec c) (OptionFns_Apply fns zero_Option) = Inr optionData"
    and "tmpl_Parse e (SetSQL c) = None"
    and "tmpl_Execute e (SetSQL c)
           [(''Key'', k), (''Value'', v), (''Option'', optionData),
            (''Time'', time_Format e (time_Now e (world s)))] = Inr query"
    and "sql_Open e (DriverName c) (DataSourceName c) = None"
    and "ExecContext e query (world s) = (Inr result, w1)"
    and "db_Close e w1 = (Some cerr, w2)"
  shows "Set e c k v fns s =
     (Some cerr,
      s\<lparr>world := w2,
        calls := calls s @ [CallOpen, CallExec query (Inr result), CallClose (Some cerr)],
        Cache := (Cache s)(k \<mapsto>
          \<lparr>Value = v, Option = OptionFns_Apply fns zero_Option, UpdateTime = time_Now e w1\<rparr>)\<rparr>)"
  using assms by (simp add: Set_def conn_defs check_defs)

theorem Set_release_error_keeps_cache_write_witness:
  "Set env_close_fails demo_Config ''k'' ''v'' [] new_Client
   = (Some (DriverError ''close''),
      \<lparr>world = 2,
       calls = [CallOpen, CallExec ''set k'' (Inr (Inr 1)), CallClose (Some (DriverError ''close''))],
       Cache = [''k'' \<mapsto> \<lparr>Value = ''v'', Option = zero_Option, UpdateTime = 1\<rparr>]\<rparr>)"
  using Set_release_error_keeps_cache_write
    [of "''k''" demo_Config "[]" "[]" env_close_fails "''v''" new_Client "''set k''" "Inr 1" 1
        "DriverError ''close''" 2]
  by (simp add: demo_defs env_defs zero_Option_def)

section \<open>Del\<close>

text \<open>
  C2. The claim: \<open>Del k\<close> returns found exactly when the delete statement reports at
  least one affected row, so the second of two \<open>Del k\<close> in a row returns not found. The
  caching client does not read the number of affected rows: with a store whose first
  delete changes one row and whose second changes none, both calls return found and a nil
  error.
\<close>

theorem Del_found_without_rows_affected:
  "Del env_delete demo_Config ''k'' new_Client
     = ((True, None),
        \<lparr>world = 2, calls = [CallOpen, CallExec ''del k'' (Inr (Inr 1)), CallClose None],
         Cache = Map.empty\<rparr>)
   \<and> Del env_delete demo_Config ''k''
        \<lparr>world = 2, calls = [CallOpen, CallExec ''del k'' (Inr (Inr 1)), CallClose None],
         Cache = Map.empty\<rparr>
     = ((True, None),
        \<lparr>world = 4, calls = [CallOpen, CallExec ''del k'' (Inr (Inr 1)), CallClose None,
                            CallOpen, CallExec ''del k'' (Inr (Inr 0)), CallClose None],
         Cache = Map.empty\<rparr>)"
  by (simp add: Del_def conn_defs check_defs demo_defs env_defs)




section \<open>Get and a key with several rows\<close>

text \<open>
  C3. The claim: whenever the read of a key returns two or more rows, \<open>Get\<close> returns an
  error that wraps \<open>ErrTooManyValues\<close>. The loop decodes the first row before it sees the
  second: with a first row whose metadata column the codec rejects, \<open>Get\<close> returns the
  codec's error, which does not wrap \<open>ErrTooManyValues\<close>.
\<close>

theorem Get_two_rows_counterexample:
  "Cache new_Client ''k'' = None
   \<and> Get env_two_rows_bad_option demo_Config ''k'' None new_Client
     = ((False, [], zero_Option, Some (CodecError ''bad'')),
        \<lparr>world = 2,
         calls = [CallOpen,
                  CallQuery ''get k'' (Inr [Inr (''v1'', [''bad'']), Inr (''v2'', [[]])]),
                  CallClose None],
         Cache = Map.empty\<rparr>)
   \<and> \<not> errors_Is (CodecError ''bad'') ErrTooManyValues"
  by (simp add: Get_def Get_return_def conn_defs check_defs demo_defs env_defs zero_Option_def)

lemma Get_rows_two_rows:
  "\<exists>err option. Get_rows cd k (r1 # r2 # rs) 0 v zero_Option = Inl (err, option)
     \<and> (row_decodes cd r1 \<longrightarrow> err = Wrapped k ErrTooManyValues)"
  by (auto simp: row_decodes_def split: sum.splits list.splits prod.splits option.splits)

text \<open>
  C3, amended. For a non-empty key that is not in the cache and whose read returns two
  or more rows, \<open>Get\<close> returns not found with a non-nil error and leaves the cache
  unmodified. The error wraps \<open>ErrTooManyValues\<close> when the first row scans and its
  metadata column is absent, empty or decodes.
\<close>

theorem Get_two_rows_fails:
  assumes "k \<noteq> []" and "Cache s k = None"
    and "tmpl_Parse e (GetSQL c) = None"
    and "tmpl_Execute e (GetSQL c) [(''Key'', k)] = Inr query"
    and "sql_Open e (DriverName c) (DataSourceName c) = None"
    and "QueryContext e query (world s) = (Inr (r1 # r2 # rs), w1)"
    and "Get e c k fn s = ((found, v, option, er), s')"
  shows "\<not> found \<and> er \<noteq> None \<and> Cache s' = Cache s
    \<and> (row_decodes (Codec c) r1
         \<longrightarrow> (\<exists>err. er = Some err \<and> errors_Is err ErrTooManyValues))"
proof -
  obtain err opt where g: "Get_rows (Codec c) k (r1 # r2 # rs) 0 [] zero_Option = Inl (err, opt)"
    and d: "row_decodes (Codec c) r1 \<longrightarrow> err = Wrapped k ErrTooManyValues"
    using Get_rows_two_rows by blast
  obtain cerr w2 where cl: "db_Close e w1 = (cerr, w2)" by (cases "db_Close e w1")
  have r: "Get e c k fn s = ((False, [], opt, multierr_Append (Some err) cerr),
      s\<lparr>world := w2,
        calls := calls s @ [CallOpen, CallQuery query (Inr (r1 # r2 # rs)), CallClose cerr]\<rparr>)"
    using assms(1-6) g cl
    by (simp add: Get_def Get_return_def conn_defs check_defs del: Get_rows.simps)
  have i: "row_decodes (Codec c) r1 \<longrightarrow> errors_Is err ErrTooManyValues"
    using d by simp
  from r assms(7) i show ?thesis
    by (cases cerr) auto
qed

theorem Get_two_rows_fails_witness:
  "row_decodes (Codec demo_Config) (Inr (''v1'', []))
   \<and> Get env_two_rows demo_Config ''k'' None new_Client
     = ((False, [], zero_Option, Some (Wrapped ''k'' ErrTooManyValues)),
        \<lparr>world = 2,
         calls = [CallOpen, CallQuery ''get k'' (Inr [Inr (''v1'', []), Inr (''v2'', [])]),
                  CallClose None],
         Cache = Map.empty\<rparr>)
   \<and> errors_Is (Wrapped ''k'' ErrTooManyValues) ErrTooManyValues"
proof -
  have g: "Get env_two_rows demo_Config ''k'' None new_Client
     = ((False, [], zero_Option, Some (Wrapped ''k'' ErrTooManyValues)),
        \<lparr>world = 2,
         calls = [CallOpen, CallQuery ''get k'' (Inr [Inr (''v1'', []), Inr (''v2'', [])]),
                  CallClose None],
         Cache = Map.empty\<rparr>)"
    by (simp add: Get_def Get_return_def conn_defs check_defs demo_defs env_defs zero_Option_def)
  have q: "QueryContext env_two_rows ''get k'' (world new_Client)
      = (Inr (Inr (''v1'', []) # Inr (''v2'', []) # []), 1)"
    by (simp add: demo_defs env_defs)
  from Get_two_rows_fails [OF _ _ _ _ _ q g] g show ?thesis
    by (simp add: demo_defs env_defs row_decodes_def)
qed

section \<open>Get and the generator hook\<close>




section \<open>Refresh\<close>


lemma clock_Query:
  "clock_monotone e \<Longrightarrow> QueryContext e q w = (r, w') \<Longrightarrow> time_Now e w \<le> time_Now e w'"
  unfolding clock_monotone_def by (metis snd_conv)

lemma clock_Exec:
  "clock_monotone e \<Longrightarrow> ExecContext e q w = (r, w') \<Longrightarrow> time_Now e w \<le> time_Now e w'"
  unfolding clock_monotone_def by (metis snd_conv)

lemma clock_Close:
  "clock_monotone e \<Longrightarrow> db_Close e w = (r, w') \<Longrightarrow> time_Now e w \<le> time_Now e w'"
  unfolding clock_monotone_def by (metis snd_conv)

lemma clock_Query_Close:
  "clock_monotone e \<Longrightarrow> QueryContext e q w = (r, w1) \<Longrightarrow> db_Close e w1 = (r2, w2)
    \<Longrightarrow> time_Now e w \<le> time_Now e w2"
proof -
  assume m: "clock_monotone e" and q: "QueryContext e q w = (r, w1)"
    and c: "db_Close e w1 = (r2, w2)"
  have "time_Now e w \<le> time_Now e w1" using clock_Query [OF m q] .
  also have "\<dots> \<le> time_Now e w2" using clock_Close [OF m c] .
  finally show ?thesis .
qed


lemma Get_None_other_keys:
  assumes "Get e c k None s = (r, s')" and "k' \<noteq> k"
  shows "Cache s' k' = Cache s k'"
  using assms
  by (auto simp: Get_def Get_return_def conn_defs check_defs
       simp del: Get_rows.simps dest!: Get_rows_Inr
       split: option.splits sum.splits prod.splits if_splits)



text \<open>The first loop of \<open>Refresh\<close>.\<close>

lemma Refresh_sweep_result:
  "Refresh_sweep keys order acc s = (cacheKeys, s2) \<Longrightarrow>
     cacheKeys = acc @ filter (\<lambda>k. k \<in> set keys) order
     \<and> world s2 = world s \<and> calls s2 = calls s
     \<and> (\<forall>k. Cache s2 k = (if k \<in> set order \<and> k \<notin> set keys then None else Cache s k))"
proof (induction order arbitrary: acc s)
  case Nil
  then show ?case by simp
next
  case (Cons k ks)
  show ?case
  proof (cases "k \<in> set keys")
    case True
    with Cons.prems have "Refresh_sweep keys ks (acc @ [k]) s = (cacheKeys, s2)" by simp
    from Cons.IH [OF this] True show ?thesis by auto
  next
    case False
    with Cons.prems
    have "Refresh_sweep keys ks acc (s\<lparr>Cache := (Cache s)(k := None)\<rparr>) = (cacheKeys, s2)"
      by simp
    from Cons.IH [OF this] False show ?thesis by auto
  qed
qed

lemma Keys_frame:
  assumes "Keys e c s = ((keys, er), s1)"
  shows "Cache s1 = Cache s \<and> (\<exists>new. calls s1 = calls s @ new)
    \<and> (clock_monotone e \<longrightarrow> time_Now e (world s) \<le> time_Now e (world s1))"
  using assms
  by (auto simp: Keys_def conn_defs split: option.splits sum.splits prod.splits)
     (erule (2) clock_Query_Close)+


lemmas run_defs = Refresh_def Keys_def Get_def Get_return_def Set_def Del_def conn_defs
  check_defs demo_defs env_defs zero_Option_def Apply_def


text \<open>
  C5. The claim: when a read fails while \<open>Refresh\<close> reads the live cached keys again,
  the keys not yet processed are left evicted. The second loop evicts a key just before
  it reads it, so the keys it has not reached are still in the cache: with the cached
  keys \<open>A\<close> and \<open>B\<close> both live, the range order \<open>A\<close>, \<open>B\<close> and a failing read of \<open>A\<close>,
  \<open>Refresh\<close> returns the error and \<open>B\<close> keeps its old entry.
\<close>

theorem Refresh_abort_counterexample:
  "range_of (Cache cached_AB) [''A'', ''B'']
   \<and> fst (Keys env_refresh_fails demo_Config cached_AB) = ([''A'', ''B''], None)
   \<and> fst (Refresh env_refresh_fails demo_Config [''A'', ''B''] cached_AB)
       = Some (DriverError ''read'')
   \<and> Cache (snd (Refresh env_refresh_fails demo_Config [''A'', ''B''] cached_AB)) ''B''
       = Some \<lparr>Value = ''b1'', Option = zero_Option, UpdateTime = 2\<rparr>
   \<and> Cache (snd (Refresh env_refresh_fails demo_Config [''A'', ''B''] cached_AB)) ''A'' = None"
proof -
  have "range_of (Cache cached_AB) [''A'', ''B'']"
    by (auto simp: range_of_def env_defs)
  then show ?thesis by (simp add: run_defs)
qed

lemma Refresh_refetch_Some:
  assumes "Refresh_refetch e c ks s = (Some err, s')" and "distinct ks"
  shows "\<exists>ks1 k ks2 sm found v option.
      ks = ks1 @ k # ks2
    \<and> Refresh_refetch e c ks1 s = (None, sm)
    \<and> Get e c k None (sm\<lparr>Cache := (Cache sm)(k := None)\<rparr>) = ((found, v, option, Some err), s')
    \<and> (\<forall>k' \<in> set ks2. Cache s' k' = Cache s k')"
  using assms
proof (induction ks arbitrary: s)
  case Nil
  then show ?case by simp
next
  case (Cons k ks)
  let ?s0 = "s\<lparr>Cache := (Cache s)(k := None)\<rparr>"
  obtain found v option er s1 where g: "Get e c k None ?s0 = ((found, v, option, er), s1)"
    by (metis prod_cases4 surj_pair)
  from Cons.prems(2) have dk: "k \<notin> set ks" and dks: "distinct ks" by auto
  have other: "Cache s1 k' = Cache s k'" if "k' \<in> set ks" for k'
  proof -
    from that dk have "k' \<noteq> k" by auto
    from Get_None_other_keys [OF g this] this show ?thesis by simp
  qed
  show ?case
  proof (cases er)
    case (Some err')
    with Cons.prems(1) g have "err' = err" "s1 = s'" by auto
    with g Some other have
      "k # ks = [] @ k # ks \<and> Refresh_refetch e c [] s = (None, s)
       \<and> Get e c k None ?s0 = ((found, v, option, Some err), s')
       \<and> (\<forall>k' \<in> set ks. Cache s' k' = Cache s k')" by simp
    then show ?thesis by blast
  next
    case None
    with Cons.prems(1) g have rest: "Refresh_refetch e c ks s1 = (Some err, s')" by simp
    from Cons.IH [OF rest dks] obtain ks1 k2 ks2 sm f2 v2 o2 where
      sp: "ks = ks1 @ k2 # ks2"
      and p: "Refresh_refetch e c ks1 s1 = (None, sm)"
      and g2: "Get e c k2 None (sm\<lparr>Cache := (Cache sm)(k2 := None)\<rparr>)
          = ((f2, v2, o2, Some err), s')"
      and u: "\<forall>k' \<in> set ks2. Cache s' k' = Cache s1 k'"
      by blast
    from p g None have p': "Refresh_refetch e c (k # ks1) s = (None, sm)" by simp
    from u other sp have u': "\<forall>k' \<in> set ks2. Cache s' k' = Cache s k'" by simp
    from sp have "k # ks = (k # ks1) @ k2 # ks2" by simp
    with p' g2 u' show ?thesis by blast
  qed
qed

text \<open>
  C5, amended. When \<open>Keys\<close> has returned the live keys and a \<open>Get\<close> of the second loop
  returns an error, \<open>Refresh\<close> returns that error at once: the state it returns is the
  state that \<open>Get\<close> left, and the live cached keys split into the keys read before
  (\<open>done\<close>), the key \<open>k\<close> whose \<open>Get\<close> failed, and the keys not yet processed (\<open>todo\<close>).
  Every key not yet processed keeps the cache entry it had before the cycle; it is not
  evicted.
\<close>

theorem Refresh_abort_keeps_unprocessed:
  assumes "range_of (Cache s) order"
    and "Keys e c s = ((live, None), s1)"
    and "Refresh e c order s = (Some err, s')"
  shows "\<exists>done k todo sm found v option.
      filter (\<lambda>k. k \<in> set live) order = done @ k # todo
    \<and> Refresh_refetch e c done (snd (Refresh_sweep live order [] s1)) = (None, sm)
    \<and> Get e c k None (sm\<lparr>Cache := (Cache sm)(k := None)\<rparr>) = ((found, v, option, Some err), s')
    \<and> (\<forall>k' \<in> set todo. Cache s' k' = Cache s k' \<and> Cache s k' \<noteq> None)"
proof -
  obtain cacheKeys s2 where sw: "Refresh_sweep live order [] s1 = (cacheKeys, s2)"
    by (metis surj_pair)
  from assms(2,3) sw have rf: "Refresh_refetch e c cacheKeys s2 = (Some err, s')"
    by (simp add: Refresh_def)
  from Refresh_sweep_result [OF sw] have
    w1: "cacheKeys = filter (\<lambda>k. k \<in> set live) order"
    and w4: "\<And>k. Cache s2 k = (if k \<in> set order \<and> k \<notin> set live then None else Cache s1 k)"
    by auto
  from assms(1) have d: "distinct order" and so: "set order = dom (Cache s)"
    by (auto simp: range_of_def)
  from d w1 have dc: "distinct cacheKeys" by simp
  from Keys_frame [OF assms(2)] have k1: "Cache s1 = Cache s" by simp
  from Refresh_refetch_Some [OF rf dc] obtain ks1 k ks2 sm found v option where
    sp: "cacheKeys = ks1 @ k # ks2"
    and p: "Refresh_refetch e c ks1 s2 = (None, sm)"
    and g: "Get e c k None (sm\<lparr>Cache := (Cache sm)(k := None)\<rparr>)
        = ((found, v, option, Some err), s')"
    and u: "\<forall>k' \<in> set ks2. Cache s' k' = Cache s2 k'"
    by blast
  have "\<forall>k' \<in> set ks2. Cache s' k' = Cache s k' \<and> Cache s k' \<noteq> None"
  proof
    fix k' assume m: "k' \<in> set ks2"
    with sp have "k' \<in> set cacheKeys" by simp
    with w1 have l: "k' \<in> set live" and o: "k' \<in> set order" by auto
    from l w4 k1 have "Cache s2 k' = Cache s k'" by simp
    with u m o so show "Cache s' k' = Cache s k' \<and> Cache s k' \<noteq> None" by (auto simp: domIff)
  qed
  with sp p g w1 sw show ?thesis by (metis snd_conv)
qed

theorem Refresh_abort_keeps_unprocessed_witness:
  "range_of (Cache cached_AB) [''A'', ''B'']
   \<and> fst (Keys env_refresh_fails demo_Config cached_AB) = ([''A'', ''B''], None)
   \<and> fst (Refresh env_refresh_fails demo_Config [''A'', ''B''] cached_AB)
       = Some (DriverError ''read'')
   \<and> (\<exists>done k todo.
         filter (\<lambda>k. k \<in> set [''A'', ''B'']) [''A'', ''B''] = done @ k # todo
       \<and> (\<forall>k' \<in> set todo.
             Cache (snd (Refresh env_refresh_fails demo_Config [''A'', ''B''] cached_AB)) k'
               = Cache cached_AB k'
             \<and> Cache cached_AB k' \<noteq> None))"
proof -
  have h1: "range_of (Cache cached_AB) [''A'', ''B'']"
    by (auto simp: range_of_def env_defs)
  have k: "fst (Keys env_refresh_fails demo_Config cached_AB) = ([''A'', ''B''], None)"
    by (simp add: run_defs)
  have h2: "Keys env_refresh_fails demo_Config cached_AB
      = (([''A'', ''B''], None), snd (Keys env_refresh_fails demo_Config cached_AB))"
    using k by (simp add: prod_eq_iff)
  have ev: "fst (Refresh env_refresh_fails demo_Config [''A'', ''B''] cached_AB)
      = Some (DriverError ''read'')"
    by (simp add: run_defs)
  have h3: "Refresh env_refresh_fails demo_Config [''A'', ''B''] cached_AB
      = (Some (DriverError ''read''),
         snd (Refresh env_refresh_fails demo_Config [''A'', ''B''] cached_AB))"
    using ev by (simp add: prod_eq_iff)
  from Refresh_abort_keeps_unprocessed [OF h1 h2 h3] have
    "\<exists>done k todo.
         filter (\<lambda>k. k \<in> set [''A'', ''B'']) [''A'', ''B''] = done @ k # todo
       \<and> (\<forall>k' \<in> set todo.
             Cache (snd (Refresh env_refresh_fails demo_Config [''A'', ''B''] cached_AB)) k'
               = Cache cached_AB k'
             \<and> Cache cached_AB k' \<noteq> None)"
    by blast
  with h1 k ev show ?thesis by blast
qed

section \<open>The option that Set builds\<close>







section \<open>Further facts\<close>

text \<open>
  The client without cache reports found from the number of rows the delete statement
  affected, which the caching client does not read.
\<close>

lemma Del_g_found_iff_rows_affected:
  assumes "Del_g e c k s = ((found, None), s')"
  shows "\<exists>query n w. ExecContext e query (world s) = (Inr (Inr n), w) \<and> (found \<longleftrightarrow> n > 0)"
  using assms
  by (auto simp: Del_g_def conn_defs check_defs
      split: option.splits sum.splits prod.splits if_splits)

text \<open>
  The client without cache does not look at what \<open>Set\<close> returns in the hook's branch of
  \<open>Get\<close>: it returns found and a nil error whatever the write did.
\<close>

lemma Get_g_hook_ignores_Set:
  assumes "k \<noteq> []"
    and "tmpl_Parse e (GetSQL_g c) = None"
    and "tmpl_Execute e (GetSQL_g c) [(''Key'', k)] = Inr query"
    and "sql_Open e (DriverName_g c) (DataSourceName_g c) = None"
    and "QueryContext e query (world s) = (Inr [], w1)"
    and "f k v = (v2, opt, None)"
  shows "fst (Get_g e c k v (Some f) s) = (True, v2, opt, None)"
  using assms
  by (simp add: Get_g_def conn_defs check_defs split: prod.splits)

text \<open>
  With a clock that does not run backwards, no operation of the caching client stamps a
  cache entry in the future: \<open>cache_times_ok\<close> holds for a new client and is kept by
  \<open>Set\<close>, \<open>Get\<close>, \<open>Del\<close>, \<open>Keys\<close> and \<open>Refresh\<close>.
\<close>

lemma cache_times_ok_new: "Cache s = Map.empty \<Longrightarrow> cache_times_ok e s"
  by (simp add: cache_times_ok_def)

lemma cache_times_ok_step:
  assumes "cache_times_ok e s"
    and "time_Now e (world s) \<le> time_Now e (world s')"
    and "\<And>k cv. Cache s' k = Some cv
          \<Longrightarrow> Cache s k = Some cv \<or> UpdateTime cv \<le> time_Now e (world s')"
  shows "cache_times_ok e s'"
  unfolding cache_times_ok_def
proof (intro allI impI)
  fix k cv assume "Cache s' k = Some cv"
  from assms(3) [OF this] show "UpdateTime cv \<le> time_Now e (world s')"
  proof
    assume "Cache s k = Some cv"
    with assms(1) have "UpdateTime cv \<le> time_Now e (world s)" by (auto simp: cache_times_ok_def)
    with assms(2) show ?thesis by simp
  qed simp
qed

lemma clock_Exec_Close:
  "clock_monotone e \<Longrightarrow> ExecContext e q w = (r, w1) \<Longrightarrow> db_Close e w1 = (r2, w2)
    \<Longrightarrow> time_Now e w \<le> time_Now e w2"
proof -
  assume m: "clock_monotone e" and q: "ExecContext e q w = (r, w1)"
    and c: "db_Close e w1 = (r2, w2)"
  have "time_Now e w \<le> time_Now e w1" using clock_Exec [OF m q] .
  also have "\<dots> \<le> time_Now e w2" using clock_Close [OF m c] .
  finally show ?thesis .
qed

lemma Set_clock:
  assumes "clock_monotone e" and "Set e c k v fns s = (er, s')"
  shows "time_Now e (world s) \<le> time_Now e (world s')"
  using assms
  by (auto simp: Set_def Let_def conn_defs split: option.splits sum.splits prod.splits)
     (erule (2) clock_Exec_Close)+

lemma Set_entries:
  assumes "clock_monotone e" and "Set e c k v fns s = (er, s')" and "Cache s' k' = Some cv"
  shows "Cache s k' = Some cv \<or> UpdateTime cv \<le> time_Now e (world s')"
  using assms
  by (auto simp: Set_def Let_def conn_defs
        split: option.splits sum.splits prod.splits if_splits)
     (blast dest: clock_Close)+

lemma Set_cache_times_ok:
  assumes "clock_monotone e" and "cache_times_ok e s" and "Set e c k v fns s = (er, s')"
  shows "cache_times_ok e s'"
  using cache_times_ok_step [OF assms(2) Set_clock [OF assms(1,3)]]
    Set_entries [OF assms(1,3)] by blast

lemma Del_cache_times_ok:
  assumes "clock_monotone e" and "cache_times_ok e s" and "Del e c k s = (r, s')"
  shows "cache_times_ok e s'"
proof (rule cache_times_ok_step [OF assms(2)])
  show "time_Now e (world s) \<le> time_Now e (world s')"
    using assms(1,3)
    by (auto simp: Del_def conn_defs split: option.splits sum.splits prod.splits)
       (erule (2) clock_Exec_Close)+
next
  fix k' cv assume "Cache s' k' = Some cv"
  with assms(3) show "Cache s k' = Some cv \<or> UpdateTime cv \<le> time_Now e (world s')"
    by (auto simp: Del_def conn_defs
        split: option.splits sum.splits prod.splits if_splits)
qed

lemma Get_clock:
  assumes "clock_monotone e" and "Get e c k fn s = (r, s')"
  shows "time_Now e (world s) \<le> time_Now e (world s')"
proof -
  have q: "time_Now e (world s) \<le> time_Now e w3"
    if "QueryContext e query (world s) = (x, w1)"
      and "Set e c k v' fns (s\<lparr>world := w1, calls := cs\<rparr>) = (er, s2)"
      and "db_Close e (world s2) = (cerr, w3)"
    for query x w1 v' fns cs er s2 cerr w3
  proof -
    have "time_Now e (world s) \<le> time_Now e w1" using clock_Query [OF assms(1) that(1)] .
    also have "\<dots> \<le> time_Now e (world s2)" using Set_clock [OF assms(1) that(2)] by simp
    also have "\<dots> \<le> time_Now e w3" using clock_Close [OF assms(1) that(3)] .
    finally show ?thesis .
  qed
  show ?thesis
    using assms
    apply (auto simp: Get_def Get_return_def conn_defs
        simp del: Get_rows.simps
        split: option.splits sum.splits prod.splits if_splits)
    apply (erule (2) clock_Query_Close | (rule q, assumption, assumption, assumption))+
    done
qed

lemma Get_entries:
  assumes "clock_monotone e" and "Get e c k fn s = (r, s')" and "Cache s' k' = Some cv"
  shows "Cache s k' = Some cv \<or> UpdateTime cv \<le> time_Now e (world s')"
proof -
  have q: "Cache s k' = Some cv \<or> UpdateTime cv \<le> time_Now e w3"
    if "Set e c k v' fns (s\<lparr>world := w1, calls := cs\<rparr>) = (er, s2)"
      and "db_Close e (world s2) = (cerr, w3)" and "Cache s2 k' = Some cv"
    for w1 v' fns cs er s2 cerr w3
  proof -
    from Set_entries [OF assms(1) that(1,3)]
    have "Cache s k' = Some cv \<or> UpdateTime cv \<le> time_Now e (world s2)" by simp
    moreover have "time_Now e (world s2) \<le> time_Now e w3"
      using clock_Close [OF assms(1) that(2)] .
    ultimately show ?thesis by auto
  qed
  show ?thesis
    using assms
    apply (auto simp: Get_def Get_return_def conn_defs
        simp del: Get_rows.simps
        split: option.splits sum.splits prod.splits if_splits)
    apply (blast dest: clock_Close q)+
    done
qed

lemma Get_cache_times_ok:
  assumes "clock_monotone e" and "cache_times_ok e s" and "Get e c k fn s = (r, s')"
  shows "cache_times_ok e s'"
  using cache_times_ok_step [OF assms(2) Get_clock [OF assms(1,3)]]
    Get_entries [OF assms(1,3)] by blast

lemma evict_cache_times_ok:
  "cache_times_ok e s \<Longrightarrow> cache_times_ok e (s\<lparr>Cache := (Cache s)(k := None)\<rparr>)"
  by (auto simp: cache_times_ok_def split: if_splits)

lemma Refresh_sweep_cache_times_ok:
  "cache_times_ok e s \<Longrightarrow> Refresh_sweep keys order acc s = (cacheKeys, s2)
    \<Longrightarrow> cache_times_ok e s2"
proof (induction order arbitrary: acc s)
  case Nil
  then show ?case by simp
next
  case (Cons k ks)
  then show ?case
    by (cases "k \<in> set keys") (auto dest: evict_cache_times_ok)
qed

lemma Refresh_refetch_cache_times_ok:
  "clock_monotone e \<Longrightarrow> cache_times_ok e s \<Longrightarrow> Refresh_refetch e c ks s = (er, s')
    \<Longrightarrow> cache_times_ok e s'"
proof (induction ks arbitrary: s)
  case Nil
  then show ?case by simp
next
  case (Cons k ks)
  let ?s0 = "s\<lparr>Cache := (Cache s)(k := None)\<rparr>"
  obtain found v option er1 s1 where g: "Get e c k None ?s0 = ((found, v, option, er1), s1)"
    by (metis prod_cases4 surj_pair)
  have ok1: "cache_times_ok e s1"
    using Get_cache_times_ok [OF Cons.prems(1) evict_cache_times_ok [OF Cons.prems(2)] g] .
  show ?case
  proof (cases er1)
    case None
    with Cons.prems(3) g have "Refresh_refetch e c ks s1 = (er, s')" by simp
    from Cons.IH [OF Cons.prems(1) ok1 this] show ?thesis .
  next
    case (Some err)
    with Cons.prems(3) g have "s' = s1" by simp
    with ok1 show ?thesis by simp
  qed
qed

lemma Keys_cache_times_ok:
  assumes "clock_monotone e" and "cache_times_ok e s" and "Keys e c s = (r, s1)"
  shows "cache_times_ok e s1"
proof -
  obtain keys er where "r = (keys, er)" by (cases r)
  with Keys_frame [of e c s keys er s1] assms(1,3)
  have "Cache s1 = Cache s" and "time_Now e (world s) \<le> time_Now e (world s1)" by auto
  with assms(2) show ?thesis by (auto intro: cache_times_ok_step)
qed

lemma Refresh_cache_times_ok:
  assumes "clock_monotone e" and "cache_times_ok e s" and "Refresh e c order s = (er, s')"
  shows "cache_times_ok e s'"
proof -
  obtain keys kerr s1 where k: "Keys e c s = ((keys, kerr), s1)" by (metis surj_pair)
  have ok1: "cache_times_ok e s1" using Keys_cache_times_ok [OF assms(1,2) k] .
  show ?thesis
  proof (cases kerr)
    case (Some err)
    with assms(3) k have "s' = s1" by (simp add: Refresh_def)
    with ok1 show ?thesis by simp
  next
    case None
    obtain cacheKeys s2 where sw: "Refresh_sweep keys order [] s1 = (cacheKeys, s2)"
      by (metis surj_pair)
    with assms(3) k None have rf: "Refresh_refetch e c cacheKeys s2 = (er, s')"
      by (simp add: Refresh_def)
    from Refresh_refetch_cache_times_ok
      [OF assms(1) Refresh_sweep_cache_times_ok [OF ok1 sw] rf]
    show ?thesis .
  qed
qed

end
